theory Spec2Isabelle
  imports Complex_Main "HOL-Library.Sublist"
begin

section \<open>Bulk-dispatch scheduler: app/api/disparos/route.ts\<close>

text \<open>
  JavaScript numbers that carry epoch milliseconds, gaps and counters are modelled as
  unbounded integers: every value the handlers compute from integral inputs stays integral,
  and the one place where the magnitude matters (the range of \<^verbatim>\<open>Date\<close>) is written out.
  Strings are character lists.
\<close>

subsection \<open>Data model\<close>

text \<open>
  The rows of the \<^verbatim>\<open>messages\<close> table keep the columns of the source; four are renamed
  where the name is taken: \<open>numero_norm\<close> is \<^verbatim>\<open>numero\<close>, \<open>error_msg\<close> is \<^verbatim>\<open>error\<close>,
  \<open>payload_text\<close> is \<^verbatim>\<open>payload.text\<close> and \<open>msg_id\<close> is \<^verbatim>\<open>id\<close>. Timestamps are epoch
  milliseconds.
\<close>

record Contact =
  nome :: "string option"
  numero :: string

datatype MessageStatus = queued | sending | sent | delivered | read_st | replied | error_st

datatype failure =
    RangeError
  | StorageError string
  | ConfigError string
  | SendFailure string
  | NetworkError string

record MessageRowInsert =
  batch_id :: int
  lista_id :: "int option"
  lista_nome :: "string option"
  numero_norm :: string
  status :: MessageStatus
  error_msg :: "string option"
  payload_text :: string
  created_at :: int
  scheduled_at :: int
  sent_at :: "int option"

subsection \<open>Utilities\<close>

definition isDigit :: "char \<Rightarrow> bool" where
  "isDigit c = (c \<in> set ''0123456789'')"

text \<open>\<^verbatim>\<open>digits\<close>: \<^verbatim>\<open>(v || "").replace(/\D+/g, "")\<close>.\<close>

definition digits :: "string \<Rightarrow> string" where
  "digits v = filter isDigit v"

text \<open>\<^verbatim>\<open>norm\<close> of the source (renamed: \<open>norm\<close> is the vector norm of HOL).\<close>

definition norm_num :: "string \<Rightarrow> string" where
  "norm_num n = (let d = digits n in
     if d = [] then [] else if prefix ''55'' d then d else ''55'' @ d)"

subsection \<open>String replacement as JavaScript performs it\<close>

text \<open>
  \<^verbatim>\<open>String.prototype.replaceAll\<close> with a string pattern and a string replacement expands
  the replacement at every match: \<^verbatim>\<open>$$\<close> is a dollar sign, \<^verbatim>\<open>$&\<close> the matched text,
  a dollar sign followed by a backquote the part of the subject before the match, followed by
  an apostrophe the part after it; every other character stands for itself (there are no
  capture groups, so \<^verbatim>\<open>$1\<close> stays as it is).
\<close>

fun getSubstitution :: "string \<Rightarrow> string \<Rightarrow> string \<Rightarrow> string \<Rightarrow> string" where
  "getSubstitution matched pre post [] = []"
| "getSubstitution matched pre post [c] = [c]"
| "getSubstitution matched pre post (c # d # r) =
     (if c = CHR ''$'' \<and> d = CHR ''$'' then CHR ''$'' # getSubstitution matched pre post r
      else if c = CHR ''$'' \<and> d = CHR ''&'' then matched @ getSubstitution matched pre post r
      else if c = CHR ''$'' \<and> d = CHR 0x60 then pre @ getSubstitution matched pre post r
      else if c = CHR ''$'' \<and> d = CHR 0x27 then post @ getSubstitution matched pre post r
      else c # getSubstitution matched pre post (d # r))"

text \<open>
  The scan runs left to right over the subject; \<open>pre\<close> is the part of the subject already
  passed. Matches do not overlap. Both call sites pass a non-empty constant pattern; with an
  empty pattern this function copies the subject.
\<close>

fun replaceAll_from :: "string \<Rightarrow> string \<Rightarrow> string \<Rightarrow> string \<Rightarrow> string" where
  "replaceAll_from pat repl pre [] = []"
| "replaceAll_from pat repl pre (c # cs) =
     (if pat \<noteq> [] \<and> prefix pat (c # cs)
      then getSubstitution pat pre (drop (length pat) (c # cs)) repl
           @ replaceAll_from pat repl (pre @ pat) (drop (length pat) (c # cs))
      else c # replaceAll_from pat repl (pre @ [c]) cs)"

definition replaceAll :: "string \<Rightarrow> string \<Rightarrow> string \<Rightarrow> string" where
  "replaceAll s pat repl = replaceAll_from pat repl [] s"

subsection \<open>Building the message rows\<close>

text \<open>
  \<^verbatim>\<open>new Date(when).toISOString()\<close> throws a RangeError outside the range of
  \<^verbatim>\<open>Date\<close> (8.64e15 ms either side of the epoch). The ISO string is represented by the
  instant it denotes.
\<close>

definition toISOString :: "int \<Rightarrow> failure + int" where
  "toISOString t = (if \<bar>t\<bar> \<le> 8640000000000000 then Inr t else Inl RangeError)"

text \<open>The rendered text of one row: \<^verbatim>\<open>{{nome}}\<close> first, then \<^verbatim>\<open>{{numero}}\<close>.\<close>

definition render :: "Contact \<Rightarrow> string \<Rightarrow> string" where
  "render c t =
     replaceAll (replaceAll t ''{{nome}}'' (case nome c of None \<Rightarrow> [] | Some n \<Rightarrow> n))
       ''{{numero}}'' (numero c)"

definition mkRow ::
  "int \<Rightarrow> int option \<Rightarrow> string option \<Rightarrow> int \<Rightarrow> Contact \<Rightarrow> int \<Rightarrow> string
     \<Rightarrow> failure + MessageRowInsert" where
  "mkRow batchId listaId listaNome createdNow c when t =
     (case toISOString when of
        Inl e \<Rightarrow> Inl e
      | Inr stamp \<Rightarrow> Inr \<lparr> batch_id = batchId, lista_id = listaId, lista_nome = listaNome,
                        numero_norm = norm_num (numero c), status = queued, error_msg = None,
                        payload_text = render c t, created_at = createdNow,
                        scheduled_at = stamp, sent_at = None \<rparr>)"

text \<open>A loop whose body may throw: the first exception, in iteration order, ends it.\<close>

fun collect :: "(failure + 'a) list \<Rightarrow> failure + 'a list" where
  "collect [] = Inr []"
| "collect (x # xs) =
     (case x of Inl e \<Rightarrow> Inl e
      | Inr v \<Rightarrow> (case collect xs of Inl e \<Rightarrow> Inl e | Inr vs \<Rightarrow> Inr (v # vs)))"

definition moments :: "int \<Rightarrow> int list \<Rightarrow> int list" where
  "moments startAtMs cadenceDays = startAtMs # map (\<lambda>d. startAtMs + d * 86400000) cadenceDays"

text \<open>
  \<^verbatim>\<open>buildRows\<close>: contacts outermost, then moments, then templates; a contact whose number
  normalises to the empty string is skipped. \<open>createdNow\<close> is the clock reading stored as
  \<^verbatim>\<open>created_at\<close> (the source reads the clock once per row; nothing depends on it).
\<close>

definition buildRows ::
  "int \<Rightarrow> Contact list \<Rightarrow> string list \<Rightarrow> int \<Rightarrow> int list \<Rightarrow> int option \<Rightarrow> string option
     \<Rightarrow> int \<Rightarrow> failure + MessageRowInsert list" where
  "buildRows batchId contacts textPool startAtMs cadenceDays listaId listaNome createdNow =
     collect (concat (map (\<lambda>c.
       if norm_num (numero c) = [] then []
       else concat (map (\<lambda>when.
              map (\<lambda>t. mkRow batchId listaId listaNome createdNow c when t) textPool)
            (moments startAtMs cadenceDays)))
       contacts))"

definition validContacts :: "Contact list \<Rightarrow> Contact list" where
  "validContacts contacts = filter (\<lambda>c. norm_num (numero c) \<noteq> []) contacts"

subsection \<open>The environment and the mutable world\<close>

text \<open>
  A stored row of the \<^verbatim>\<open>messages\<close> table: the inserted columns and the generated id.
\<close>

record Message = MessageRowInsert +
  msg_id :: int

text \<open>
  What the handlers read from outside is an oracle indexed by how often it has been asked:
  the wall clock (\<^verbatim>\<open>Date.now()\<close>), \<^verbatim>\<open>Math.random()\<close>, and the error, if any, that the
  store reports for its k-th operation. The world holds the table and the counters.
\<close>

record env =
  clock :: "nat \<Rightarrow> int"
  random :: "nat \<Rightarrow> real"
  db_fault :: "nat \<Rightarrow> string option"

record world =
  messages :: "Message list"
  next_id :: int
  ticks :: nat
  draws :: nat
  db_ops :: nat

definition now :: "env \<Rightarrow> world \<Rightarrow> int \<times> world" where
  "now e w = (clock e (ticks w), w\<lparr>ticks := Suc (ticks w)\<rparr>)"

text \<open>
  \<^verbatim>\<open>rand(a, b)\<close>: \<^verbatim>\<open>min + Math.floor(Math.random() * (max - min + 1))\<close> with \<^verbatim>\<open>min\<close>
  raised to 0 when negative.
\<close>

definition rand :: "env \<Rightarrow> int \<Rightarrow> int \<Rightarrow> world \<Rightarrow> int \<times> world" where
  "rand e a b w =
     (let mn = (if min a b < 0 then 0 else min a b); mx = max a b
      in (mn + \<lfloor>random e (draws w) * of_int (mx - mn + 1)\<rfloor>, w\<lparr>draws := Suc (draws w)\<rparr>))"

definition store_op :: "world \<Rightarrow> world" where
  "store_op w = w\<lparr>db_ops := Suc (db_ops w)\<rparr>"

text \<open>
  \<^verbatim>\<open>select("id, scheduled_at").in("id", ids).order("scheduled_at", {ascending: true})\<close>.
  The store leaves the order of equal keys open; the model keeps the table order for them.
\<close>

definition selectByIds :: "env \<Rightarrow> int list \<Rightarrow> world \<Rightarrow> (string + Message list) \<times> world" where
  "selectByIds e ids w =
     (case db_fault e (db_ops w) of
        Some err \<Rightarrow> (Inl err, store_op w)
      | None \<Rightarrow> (Inr (sort_key scheduled_at (filter (\<lambda>m. msg_id m \<in> set ids) (messages w))),
                 store_op w))"

text \<open>\<^verbatim>\<open>update({scheduled_at}).eq("id", i)\<close>; an update that reports an error changes nothing.\<close>

definition setTime :: "int \<Rightarrow> int \<Rightarrow> Message list \<Rightarrow> Message list" where
  "setTime i t ms = map (\<lambda>m. if msg_id m = i then m\<lparr>scheduled_at := t\<rparr> else m) ms"

definition updateScheduledAt :: "env \<Rightarrow> int \<Rightarrow> int \<Rightarrow> world \<Rightarrow> string option \<times> world" where
  "updateScheduledAt e i t w =
     (case db_fault e (db_ops w) of
        Some err \<Rightarrow> (Some err, store_op w)
      | None \<Rightarrow> (None, store_op (w\<lparr>messages := setTime i t (messages w)\<rparr>)))"

subsection \<open>Jitter and pause\<close>

text \<open>The first half of the loop body of \<^verbatim>\<open>applyJitterAndPause\<close>: the cursor for this row.\<close>

definition nextCursor ::
  "env \<Rightarrow> int \<Rightarrow> int \<Rightarrow> int \<Rightarrow> int \<Rightarrow> int \<Rightarrow> nat \<Rightarrow> world \<Rightarrow> int \<times> world" where
  "nextCursor e minGapMs maxGapMs pauseEvery pauseDurationMs cursor count w =
     (if count > 0 then
        (let (gap, w1) = (if minGapMs \<ge> maxGapMs then (max 0 minGapMs, w)
                          else (let (g, w') = rand e minGapMs maxGapMs w in (max 0 g, w')));
             c1 = cursor + gap
         in (if pauseEvery > 0 \<and> int count mod pauseEvery = 0
             then c1 + max 0 pauseDurationMs else c1, w1))
      else (cursor, w))"

fun jitterLoop ::
  "env \<Rightarrow> int \<Rightarrow> int \<Rightarrow> int \<Rightarrow> int \<Rightarrow> int \<Rightarrow> nat \<Rightarrow> Message list \<Rightarrow> world
     \<Rightarrow> (failure + unit) \<times> world" where
  "jitterLoop e minGapMs maxGapMs pauseEvery pauseDurationMs cursor count [] w = (Inr (), w)"
| "jitterLoop e minGapMs maxGapMs pauseEvery pauseDurationMs cursor count (r # rs) w =
     (case nextCursor e minGapMs maxGapMs pauseEvery pauseDurationMs cursor count w of
        (cursor', w1) \<Rightarrow>
          (case toISOString cursor' of
             Inl err \<Rightarrow> (Inl err, w1)
           | Inr stamp \<Rightarrow>
               (case updateScheduledAt e (msg_id r) stamp w1 of
                  (Some err, w2) \<Rightarrow> (Inl (StorageError err), w2)
                | (None, w2) \<Rightarrow>
                    jitterLoop e minGapMs maxGapMs pauseEvery pauseDurationMs cursor'
                      (Suc count) rs w2)))"

definition applyJitterAndPause ::
  "env \<Rightarrow> int list \<Rightarrow> int \<Rightarrow> int \<Rightarrow> int \<Rightarrow> int \<Rightarrow> world \<Rightarrow> (failure + unit) \<times> world" where
  "applyJitterAndPause e ids minGapMs maxGapMs pauseEvery pauseDurationMs w =
     (if ids = [] then (Inr (), w)
      else (case selectByIds e ids w of
              (Inl err, w1) \<Rightarrow> (Inl (StorageError err), w1)
            | (Inr rows, w1) \<Rightarrow>
                (if rows = [] then (Inr (), w1)
                 else (case now e w1 of
                         (t, w2) \<Rightarrow>
                           jitterLoop e minGapMs maxGapMs pauseEvery pauseDurationMs
                             (max t (scheduled_at (hd rows))) 0 rows w2))))"

text \<open>
  The rows a jitter pass works on, in the order it processes them, and the scheduled times
  those rows hold afterwards, in the same order.
\<close>

definition jitterRows :: "int list \<Rightarrow> world \<Rightarrow> Message list" where
  "jitterRows ids w = sort_key scheduled_at (filter (\<lambda>m. msg_id m \<in> set ids) (messages w))"

definition timesOf :: "world \<Rightarrow> int list \<Rightarrow> int list" where
  "timesOf w ks = concat (map (\<lambda>k. map scheduled_at (filter (\<lambda>m. msg_id m = k) (messages w))) ks)"

definition resultingSchedule :: "int list \<Rightarrow> world \<Rightarrow> world \<Rightarrow> int list" where
  "resultingSchedule ids w w' = timesOf w' (map msg_id (jitterRows ids w))"

text \<open>Step 3 of \<^verbatim>\<open>POST\<close>: the caller's delays and pause are clamped, then the jitter runs.\<close>

definition minGap :: "int \<Rightarrow> int \<Rightarrow> int" where
  "minGap delayMsMin delayMsMax = max 0 (min delayMsMin delayMsMax)"

definition maxGap :: "int \<Rightarrow> int \<Rightarrow> int" where
  "maxGap delayMsMin delayMsMax = max delayMsMin delayMsMax"

definition POST_jitter ::
  "env \<Rightarrow> int list \<Rightarrow> int \<Rightarrow> int \<Rightarrow> int \<Rightarrow> int \<Rightarrow> world \<Rightarrow> (failure + unit) \<times> world" where
  "POST_jitter e ids delayMsMin delayMsMax pauseEvery pauseDurationMs w =
     applyJitterAndPause e ids (minGap delayMsMin delayMsMax) (maxGap delayMsMin delayMsMax)
       (max 0 pauseEvery) (max 0 pauseDurationMs) w"

subsection \<open>Inserting the rows\<close>




subsection \<open>Status of a batch\<close>






subsection \<open>Sending through the provider\<close>

text \<open>
  What \<^verbatim>\<open>sendViaUazapi\<close> reads of a response: the status, the header
  \<^verbatim>\<open>x-fallback-url\<close> (header names are matched without regard to case), and the parsed
  body: a string, or a JSON value given with its \<^verbatim>\<open>JSON.stringify\<close> text and, for an
  object, its members (a member is a string or something else). A \<^verbatim>\<open>fetch\<close> that rejects
  gives no response.
\<close>

datatype jsonval = JString string | JOther

datatype rdata = DString string | DObject "(string \<times> jsonval) list" string | DOther string

record response =
  resp_status :: nat
  x_fallback_url :: "string option"
  resp_data :: rdata

datatype reply = Answer response | Rejected string

record request =
  req_url :: string
  req_number :: string
  req_text :: string

text \<open>
  The provider is an oracle indexed by the number of requests made so far; the wire is the
  list of requests made with their replies. The configuration comes from the process
  environment.
\<close>

record net =
  http :: "nat \<Rightarrow> request \<Rightarrow> reply"
  API_BASE :: string
  TOKEN_INSTANCIA :: string

type_synonym wire = "(request \<times> reply) list"

type_synonym attempt = "string \<times> nat \<times> rdata"

definition res_ok :: "response \<Rightarrow> bool" where
  "res_ok r = (200 \<le> resp_status r \<and> resp_status r \<le> 299)"

definition tryPost :: "net \<Rightarrow> string \<Rightarrow> string \<Rightarrow> string \<Rightarrow> wire \<Rightarrow> reply \<times> wire" where
  "tryPost n url to body wr =
     (let rq = \<lparr> req_url = url, req_number = to, req_text = body \<rparr>;
          rp = http n (length wr) rq
      in (rp, wr @ [(rq, rp)]))"

definition stripSlashes :: "string \<Rightarrow> string" where
  "stripSlashes s = rev (dropWhile (\<lambda>c. c = CHR ''/'') (rev s))"

definition lowerChar :: "char \<Rightarrow> char" where
  "lowerChar c =
     (case map_of (zip ''ABCDEFGHIJKLMNOPQRSTUVWXYZ'' ''abcdefghijklmnopqrstuvwxyz'') c of
        None \<Rightarrow> c | Some d \<Rightarrow> d)"

text \<open>\<^verbatim>\<open>/\/(send\/text|message\/text|sendText)$/i\<close>\<close>

definition hasEndpoint :: "string \<Rightarrow> bool" where
  "hasEndpoint clean =
     (let l = map lowerChar clean
      in suffix ''/send/text'' l \<or> suffix ''/message/text'' l \<or> suffix ''/sendtext'' l)"

definition normalizeCandidates :: "string \<Rightarrow> string list" where
  "normalizeCandidates baseOrFull =
     (let clean = stripSlashes baseOrFull
      in if hasEndpoint clean then [clean]
         else [clean @ ''/send/text'', clean @ ''/message/text'', clean @ ''/sendText''])"

text \<open>
  The fallback hint of a 404: the header if it is a non-empty string, else the member
  \<^verbatim>\<open>url\<close> of a body object whose member \<^verbatim>\<open>step\<close> is the string \<^verbatim>\<open>fallback\<close>; an empty
  hint counts as none.
\<close>

definition bodyFallback :: "rdata \<Rightarrow> string option" where
  "bodyFallback d =
     (case d of
        DObject members js \<Rightarrow>
          (if map_of members ''step'' = Some (JString ''fallback'')
           then (case map_of members ''url'' of Some (JString u) \<Rightarrow> Some u | _ \<Rightarrow> None)
           else None)
      | _ \<Rightarrow> None)"

definition fallbackOf :: "response \<Rightarrow> string option" where
  "fallbackOf r =
     (let fb = (case x_fallback_url r of
                  Some h \<Rightarrow> (if h \<noteq> [] then Some h else bodyFallback (resp_data r))
                | None \<Rightarrow> bodyFallback (resp_data r))
      in case fb of Some u \<Rightarrow> (if u \<noteq> [] then Some u else None) | None \<Rightarrow> None)"

datatype attempt_end = Accepted | Threw failure | Exhausted

fun fallbackLoop ::
  "net \<Rightarrow> string \<Rightarrow> string \<Rightarrow> string list \<Rightarrow> attempt list \<Rightarrow> wire
     \<Rightarrow> attempt_end \<times> attempt list \<times> wire" where
  "fallbackLoop n to body [] tried wr = (Exhausted, tried, wr)"
| "fallbackLoop n to body (alt # alts) tried wr =
     (case tryPost n alt to body wr of
        (Rejected msg, wr') \<Rightarrow> (Threw (NetworkError msg), tried, wr')
      | (Answer r, wr') \<Rightarrow>
          (let tried' = tried @ [(alt, resp_status r, resp_data r)]
           in if res_ok r then (Accepted, tried', wr')
              else fallbackLoop n to body alts tried' wr'))"

fun firstLoop ::
  "net \<Rightarrow> string \<Rightarrow> string \<Rightarrow> string list \<Rightarrow> attempt list \<Rightarrow> wire
     \<Rightarrow> attempt_end \<times> attempt list \<times> wire" where
  "firstLoop n to body [] tried wr = (Exhausted, tried, wr)"
| "firstLoop n to body (url # urls) tried wr =
     (case tryPost n url to body wr of
        (Rejected msg, wr') \<Rightarrow> (Threw (NetworkError msg), tried, wr')
      | (Answer r, wr') \<Rightarrow>
          (let tried' = tried @ [(url, resp_status r, resp_data r)]
           in if res_ok r then (Accepted, tried', wr')
              else if resp_status r = 404 then
                (case fallbackOf r of
                   None \<Rightarrow> firstLoop n to body urls tried' wr'
                 | Some fb \<Rightarrow>
                     (case fallbackLoop n to body (normalizeCandidates fb) tried' wr' of
                        (Exhausted, tried'', wr'') \<Rightarrow> firstLoop n to body urls tried'' wr''
                      | (Accepted, tried'', wr'') \<Rightarrow> (Accepted, tried'', wr'')
                      | (Threw f, tried'', wr'') \<Rightarrow> (Threw f, tried'', wr'')))
              else firstLoop n to body urls tried' wr'))"

fun showNat :: "nat \<Rightarrow> string" where
  "showNat k = (if k < 10 then [''0123456789'' ! k]
                else showNat (k div 10) @ [''0123456789'' ! (k mod 10)])"

definition showData :: "rdata \<Rightarrow> string" where
  "showData d = (case d of DString t \<Rightarrow> t | DObject members js \<Rightarrow> js | DOther js \<Rightarrow> js)"

definition attemptLine :: "attempt \<Rightarrow> string" where
  "attemptLine t = (case t of (url, st, d) \<Rightarrow> showNat st @ '' '' @ url @ '' -> '' @ showData d)"

fun joinLines :: "string list \<Rightarrow> string" where
  "joinLines [] = []"
| "joinLines [l] = l"
| "joinLines (l # m # ls) = l @ [CHR 0x0A] @ joinLines (m # ls)"

definition failureMessage :: "attempt list \<Rightarrow> string" where
  "failureMessage tried =
     ''Falha ao enviar (tentativas):'' @ [CHR 0x0A] @ joinLines (map attemptLine tried)"

definition sendViaUazapi :: "net \<Rightarrow> string \<Rightarrow> string \<Rightarrow> wire \<Rightarrow> (failure + unit) \<times> wire" where
  "sendViaUazapi n to body wr =
     (if API_BASE n = [] then (Inl (ConfigError ''UAZAPIGO_API_URL ausente''), wr)
      else if TOKEN_INSTANCIA n = [] then (Inl (ConfigError ''UAZAPIGO_TOKEN ausente''), wr)
      else (case firstLoop n to body (normalizeCandidates (API_BASE n)) [] wr of
              (Accepted, tried, wr') \<Rightarrow> (Inr (), wr')
            | (Threw f, tried, wr') \<Rightarrow> (Inl f, wr')
            | (Exhausted, tried, wr') \<Rightarrow> (Inl (SendFailure (failureMessage tried)), wr')))"






subsection \<open>Draining a batch\<close>

datatype exit_reason = no_jobs | time_budget

text \<open>\<^verbatim>\<open>getErrMsg\<close> of a thrown error: its message.\<close>

definition getErrMsg :: "failure \<Rightarrow> string" where
  "getErrMsg f =
     (case f of RangeError \<Rightarrow> ''Invalid time value'' | StorageError m \<Rightarrow> m | ConfigError m \<Rightarrow> m
      | SendFailure m \<Rightarrow> m | NetworkError m \<Rightarrow> m)"

text \<open>
  An update of the rows with one id whose outcome the caller does not look at: when the
  store reports an error the row stays as it was.
\<close>

definition updateRow :: "env \<Rightarrow> (Message \<Rightarrow> Message) \<Rightarrow> int \<Rightarrow> world \<Rightarrow> world" where
  "updateRow e f i w =
     (case db_fault e (db_ops w) of
        Some err \<Rightarrow> store_op w
      | None \<Rightarrow> store_op (w\<lparr>messages := map (\<lambda>m. if msg_id m = i then f m else m) (messages w)\<rparr>))"

text \<open>
  The select of \<^verbatim>\<open>processChunk\<close>: rows of the batch that are queued or sending and due
  at \<open>nowIso\<close>, earliest first, at most \<open>limit\<close> of them.
\<close>

definition selectJobs ::
  "env \<Rightarrow> int \<Rightarrow> nat \<Rightarrow> int \<Rightarrow> world \<Rightarrow> (string + Message list) \<times> world" where
  "selectJobs e batchId limit nowIso w =
     (case db_fault e (db_ops w) of
        Some err \<Rightarrow> (Inl err, store_op w)
      | None \<Rightarrow>
          (Inr (take limit (sort_key scheduled_at
                  (filter (\<lambda>m. batch_id m = batchId \<and> (status m = queued \<or> status m = sending)
                                \<and> scheduled_at m \<le> nowIso) (messages w)))),
           store_op w))"

text \<open>
  Up to three sends; \<open>lastErr\<close> is the message of the last error caught. The sleep between
  attempts only lets time pass, which the clock oracle accounts for.
\<close>

fun retry ::
  "net \<Rightarrow> string \<Rightarrow> string \<Rightarrow> nat \<Rightarrow> string option \<Rightarrow> wire \<Rightarrow> bool \<times> string option \<times> wire" where
  "retry n to body 0 lastErr wr = (False, lastErr, wr)"
| "retry n to body (Suc k) lastErr wr =
     (case sendViaUazapi n to body wr of
        (Inr u, wr') \<Rightarrow> (True, lastErr, wr')
      | (Inl f, wr') \<Rightarrow> retry n to body k (Some (getErrMsg f)) wr')"

text \<open>
  The loop over the selected jobs. \<open>nJobs\<close> is \<^verbatim>\<open>jobs.length\<close>; the result is \<open>Some\<close>
  when the loop returns from inside, \<open>None\<close> when it runs to its end.
\<close>

fun processJobs ::
  "env \<Rightarrow> net \<Rightarrow> int \<Rightarrow> int \<Rightarrow> nat \<Rightarrow> Message list \<Rightarrow> world \<times> wire
     \<Rightarrow> (nat \<times> exit_reason) option \<times> (world \<times> wire)" where
  "processJobs e n startClock timeBudgetMs nJobs [] st = (None, st)"
| "processJobs e n startClock timeBudgetMs nJobs (j # js) st =
     (let w1 = updateRow e (\<lambda>m. m\<lparr>status := sending, error_msg := None\<rparr>) (msg_id j) (fst st)
      in case retry n (numero_norm j) (payload_text j) 3 None (snd st) of
           (ok, lastErr, wr1) \<Rightarrow>
             (let w3 = (if ok
                        then (case now e w1 of
                                (t, w2) \<Rightarrow>
                                  updateRow e (\<lambda>m. m\<lparr>status := sent, error_msg := None,
                                                       sent_at := Some t\<rparr>) (msg_id j) w2)
                        else updateRow e
                               (\<lambda>m. m\<lparr>status := error_st,
                                       error_msg := Some (take 2000
                                         (case lastErr of None \<Rightarrow> ''null'' | Some msg \<Rightarrow> msg))\<rparr>)
                               (msg_id j) w1)
              in case now e w3 of
                   (t', w4) \<Rightarrow>
                     (if t' - startClock \<ge> timeBudgetMs
                      then (Some (nJobs, time_budget), (w4, wr1))
                      else processJobs e n startClock timeBudgetMs nJobs js (w4, wr1))))"

text \<open>
  The while loop. It ends when the clock passes the budget or no job is due; with a clock
  that stands still and a store that refuses every update it does not end, so the result
  is optional.
\<close>

partial_function (option) chunkLoop ::
  "env \<Rightarrow> net \<Rightarrow> int \<Rightarrow> nat \<Rightarrow> int \<Rightarrow> int \<Rightarrow> world \<times> wire
     \<Rightarrow> ((failure + nat \<times> exit_reason) \<times> (world \<times> wire)) option" where
  "chunkLoop e n batchId limit timeBudgetMs startClock st =
     (case now e (fst st) of
        (t, w1) \<Rightarrow>
          (if \<not> (t - startClock < timeBudgetMs) then Some (Inr (0, time_budget), (w1, snd st))
           else (case now e w1 of
                   (t2, w2) \<Rightarrow>
                     (case selectJobs e batchId limit (t2 + 1500) w2 of
                        (Inl err, w3) \<Rightarrow> Some (Inl (StorageError err), (w3, snd st))
                      | (Inr jobs, w3) \<Rightarrow>
                          (if jobs = [] then Some (Inr (0, no_jobs), (w3, snd st))
                           else (case processJobs e n startClock timeBudgetMs (length jobs) jobs
                                        (w3, snd st) of
                                   (Some r, st') \<Rightarrow> Some (Inr r, st')
                                 | (None, st') \<Rightarrow>
                                     chunkLoop e n batchId limit timeBudgetMs startClock st'))))))"

definition processChunk ::
  "env \<Rightarrow> net \<Rightarrow> int \<Rightarrow> nat \<Rightarrow> int \<Rightarrow> world \<times> wire
     \<Rightarrow> ((failure + nat \<times> exit_reason) \<times> (world \<times> wire)) option" where
  "processChunk e n batchId limit timeBudgetMs st =
     (case now e (fst st) of
        (startClock, w0) \<Rightarrow> chunkLoop e n batchId limit timeBudgetMs startClock (w0, snd st))"

subsection \<open>The sending window\<close>

text \<open>
  A time zone is given by its offset from UTC, in minutes, at each instant. The system zone
  of the process is given twice: by its offset at an instant, and by the offset the engine
  resolves for a local wall-clock time, which is what parsing a date string without a zone
  uses. The hour is counted from 0 to 23.
\<close>

type_synonym zone = "int \<Rightarrow> int"

record sysZone =
  sys_at_utc :: "int \<Rightarrow> int"
  sys_at_local :: "int \<Rightarrow> int"

definition getLocalHour :: "int \<Rightarrow> zone \<Rightarrow> int" where
  "getLocalHour t z = ((t + z t * 60000) div 3600000) mod 24"

definition inWindow :: "int \<Rightarrow> zone \<Rightarrow> int \<Rightarrow> int \<Rightarrow> bool" where
  "inWindow t z startH endH = (getLocalHour t z \<ge> startH \<and> getLocalHour t z < endH)"

text \<open>
  \<^verbatim>\<open>next0800\<close>. The year, month and day of \<open>t\<close> in the zone go back into
  \<^verbatim>\<open>Date.UTC\<close>, so \<open>eightLocal\<close> is 08:00 UTC of the local calendar day, counted in days
  since the epoch. \<^verbatim>\<open>toLocaleString\<close> with the zone gives the wall-clock time of that
  instant in the zone; \<^verbatim>\<open>new Date(string)\<close> reads it as a wall-clock time of the system
  zone, and \<^verbatim>\<open>getTimezoneOffset\<close> is the system zone's offset at the instant so obtained.
  \<^verbatim>\<open>setUTCDate(getUTCDate() + 1)\<close> adds 24 hours.
\<close>

definition next0800 :: "sysZone \<Rightarrow> int \<Rightarrow> zone \<Rightarrow> int" where
  "next0800 sys t z =
     (let localDay = (t + z t * 60000) div 86400000;
          eightLocal = localDay * 86400000 + 8 * 3600000;
          wall = eightLocal + z eightLocal * 60000;
          parsed = wall - sys_at_local sys wall * 60000;
          offsetMin = sys_at_utc sys parsed;
          eightEpoch = eightLocal - offsetMin * 60000
      in if t \<le> eightEpoch then eightEpoch else eightEpoch + 86400000)"

subsection \<open>Templates as the specification describes them\<close>









text \<open>
  The gap rule in the words of the specification, with the clamping at 0 that the source
  applies: a fixed gap when \<open>minGapMs \<ge> maxGapMs\<close>, otherwise a gap between the two bounds;
  and the pause added when the running count is a multiple of \<open>pauseEvery\<close>.
\<close>

definition pauseAt :: "int \<Rightarrow> int \<Rightarrow> nat \<Rightarrow> int" where
  "pauseAt pauseEvery pauseDurationMs count =
     (if pauseEvery > 0 \<and> int count mod pauseEvery = 0 then max 0 pauseDurationMs else 0)"

definition gapOK :: "int \<Rightarrow> int \<Rightarrow> int \<Rightarrow> bool" where
  "gapOK minGapMs maxGapMs gap =
     (if minGapMs \<ge> maxGapMs then gap = max 0 minGapMs
      else max 0 minGapMs \<le> gap \<and> gap \<le> max 0 maxGapMs)"

fun stepsOK :: "int \<Rightarrow> int \<Rightarrow> int \<Rightarrow> int \<Rightarrow> int \<Rightarrow> nat \<Rightarrow> int list \<Rightarrow> bool" where
  "stepsOK a b p d prev count [] = True"
| "stepsOK a b p d prev count (c # cs) =
     ((if count = 0 then c = prev else gapOK a b (c - prev - pauseAt p d count))
      \<and> stepsOK a b p d c (Suc count) cs)"

text \<open>\<^verbatim>\<open>Math.random()\<close> returns a number in the half-open interval from 0 to 1.\<close>

definition unitInterval :: "env \<Rightarrow> bool" where
  "unitInterval e = (\<forall>k. 0 \<le> random e k \<and> random e k < 1)"

subsection \<open>Sample data\<close>

definition sampleRow :: "int \<Rightarrow> int \<Rightarrow> Message" where
  "sampleRow i t = \<lparr> batch_id = 1, lista_id = None, lista_nome = None,
      numero_norm = ''5511999998888'', status = queued, error_msg = None,
      payload_text = ''Oi'', created_at = 0, scheduled_at = t, sent_at = None, msg_id = i \<rparr>"

definition sampleEnv :: env where
  "sampleEnv = \<lparr> clock = (\<lambda>k. 2000 + 100 * int k), random = (\<lambda>k. 1 / 2),
      db_fault = (\<lambda>k. None) \<rparr>"

definition sampleWorld :: "Message list \<Rightarrow> world" where
  "sampleWorld ms = \<lparr> messages = ms, next_id = 1 + int (length ms), ticks = 0, draws = 0,
      db_ops = 0 \<rparr>"

text \<open>A provider that answers every request with the same status and no hint.\<close>

definition stubNet :: "nat \<Rightarrow> net" where
  "stubNet code = \<lparr> http = (\<lambda>k rq. Answer \<lparr> resp_status = code, x_fallback_url = None,
                                          resp_data = DString ''no'' \<rparr>),
                    API_BASE = ''http://api'', TOKEN_INSTANCIA = ''t'' \<rparr>"

section \<open>Properties\<close>

subsection \<open>Address normalisation\<close>








subsection \<open>Row construction\<close>

lemma collect_append:
  "collect (xs @ ys) =
     (case collect xs of Inl e \<Rightarrow> Inl e
      | Inr a \<Rightarrow> (case collect ys of Inl e \<Rightarrow> Inl e | Inr b \<Rightarrow> Inr (a @ b)))"
  by (induction xs) (auto split: sum.splits)

lemma collect_Inl_mem: "collect xs = Inl e \<Longrightarrow> Inl e \<in> set xs"
  by (induction xs) (auto split: sum.splits)

lemma mkRow_Inl:
  "mkRow b li lnm cn c w t = Inl e \<Longrightarrow> e = RangeError \<and> \<not> \<bar>w\<bar> \<le> 8640000000000000"
  by (auto simp: mkRow_def toISOString_def split: if_splits)

lemma mkRow_Inr:
  "mkRow b li lnm cn c w t = Inr r \<Longrightarrow> scheduled_at r = w \<and> payload_text r = render c t
     \<and> numero_norm r = norm_num (numero c) \<and> status r = queued"
  by (auto simp: mkRow_def toISOString_def split: if_splits)

lemma rows_templates:
  "collect (map (\<lambda>t. mkRow b li lnm cn c w t) tp) = Inr rs \<Longrightarrow>
     length rs = length tp \<and> map scheduled_at rs = replicate (length tp) w"
proof (induction tp arbitrary: rs)
  case Nil
  then show ?case by simp
next
  case (Cons t tp)
  then show ?case
    by (auto split: sum.splits dest: mkRow_Inr)
qed

lemma rows_moments:
  "collect (concat (map (\<lambda>w. map (\<lambda>t. mkRow b li lnm cn c w t) tp) ms)) = Inr rs \<Longrightarrow>
     length rs = length ms * length tp
     \<and> map scheduled_at rs = concat (map (\<lambda>w. replicate (length tp) w) ms)"
proof (induction ms arbitrary: rs)
  case Nil
  then show ?case by simp
next
  case (Cons w ms)
  then show ?case
    by (auto simp: collect_append split: sum.splits dest!: rows_templates)
qed

lemma rows_contacts:
  "collect (concat (map (\<lambda>c.
       if norm_num (numero c) = [] then []
       else concat (map (\<lambda>w. map (\<lambda>t. mkRow b li lnm cn c w t) tp) ms)) cs)) = Inr rs \<Longrightarrow>
     length rs = length (validContacts cs) * (length ms * length tp)
     \<and> map scheduled_at rs =
         concat (map (\<lambda>c. concat (map (\<lambda>w. replicate (length tp) w) ms)) (validContacts cs))"
proof (induction cs arbitrary: rs)
  case Nil
  then show ?case by (simp add: validContacts_def)
next
  case (Cons c cs)
  show ?case
  proof (cases "norm_num (numero c) = []")
    case True
    with Cons show ?thesis by (simp add: validContacts_def)
  next
    case False
    with Cons.prems obtain r1 r2 where
      r1: "collect (concat (map (\<lambda>w. map (\<lambda>t. mkRow b li lnm cn c w t) tp) ms)) = Inr r1"
      and r2: "collect (concat (map (\<lambda>c.
       if norm_num (numero c) = [] then []
       else concat (map (\<lambda>w. map (\<lambda>t. mkRow b li lnm cn c w t) tp) ms)) cs)) = Inr r2"
      and rs: "rs = r1 @ r2"
      by (auto simp: collect_append split: sum.splits)
    from rows_moments[OF r1] Cons.IH[OF r2] False rs show ?thesis
      by (simp add: validContacts_def algebra_simps)
  qed
qed

text \<open>
  C1. Whenever \<^verbatim>\<open>buildRows\<close> returns, the number of rows is
  \<open>|validContacts| * (1 + |cadenceDays|) * |textPool|\<close>, and the scheduled times are, contact
  by contact, the anchor and then the anchor plus \<open>d * 86400000\<close> for each cadence offset
  \<open>d\<close>, each repeated once per template. The only other outcome is the RangeError of
  \<^verbatim>\<open>toISOString\<close>, thrown when one of these moments is not a valid \<^verbatim>\<open>Date\<close>.
\<close>

theorem buildRows_count:
  "case buildRows batchId contacts textPool startAtMs cadenceDays listaId listaNome createdNow of
     Inr rows \<Rightarrow>
       length rows = length (validContacts contacts) * (1 + length cadenceDays) * length textPool
       \<and> map scheduled_at rows =
           concat (map (\<lambda>c. concat (map (\<lambda>w. replicate (length textPool) w)
                     (startAtMs # map (\<lambda>d. startAtMs + d * 86400000) cadenceDays)))
             (validContacts contacts))
   | Inl e \<Rightarrow> e = RangeError
       \<and> (\<exists>w \<in> set (startAtMs # map (\<lambda>d. startAtMs + d * 86400000) cadenceDays).
             \<not> \<bar>w\<bar> \<le> 8640000000000000)"
proof (cases "buildRows batchId contacts textPool startAtMs cadenceDays listaId listaNome createdNow")
  case (Inr rows)
  from rows_contacts[OF Inr[unfolded buildRows_def]] Inr show ?thesis
    by (simp add: moments_def algebra_simps)
next
  case (Inl e)
  from collect_Inl_mem[OF Inl[unfolded buildRows_def]]
  obtain c w t where "w \<in> set (moments startAtMs cadenceDays)"
    and "mkRow batchId listaId listaNome createdNow c w t = Inl e"
    by (auto split: if_splits)
  with mkRow_Inl[of batchId listaId listaNome createdNow c w t e] Inl show ?thesis
    by (auto simp: moments_def)
qed

theorem buildRows_count_witness:
  "\<exists>rows. buildRows 7 [\<lparr>nome = Some ''Ana'', numero = ''11999998888''\<rparr>,
                        \<lparr>nome = None, numero = ''abc''\<rparr>]
             [''Hi {{nome}}'', ''Oi''] 1000 [1] None None 0 = Inr rows
     \<and> length rows = 4
     \<and> map scheduled_at rows = [1000, 1000, 86401000, 86401000]"
proof -
  have v: "validContacts [\<lparr>nome = Some ''Ana'', numero = ''11999998888''\<rparr>,
                        \<lparr>nome = None, numero = ''abc''\<rparr>]
           = [\<lparr>nome = Some ''Ana'', numero = ''11999998888''\<rparr>]"
    by (simp add: validContacts_def norm_num_def digits_def isDigit_def)
  obtain rows where r: "buildRows 7 [\<lparr>nome = Some ''Ana'', numero = ''11999998888''\<rparr>,
                        \<lparr>nome = None, numero = ''abc''\<rparr>]
             [''Hi {{nome}}'', ''Oi''] 1000 [1] None None 0 = Inr rows"
    by (simp add: buildRows_def mkRow_def toISOString_def moments_def norm_num_def digits_def
        isDigit_def)
  from buildRows_count[where batchId=7
             and contacts="[\<lparr>nome = Some ''Ana'', numero = ''11999998888''\<rparr>,
                        \<lparr>nome = None, numero = ''abc''\<rparr>]"
             and textPool="[''Hi {{nome}}'', ''Oi'']" and startAtMs=1000 and cadenceDays="[1]"
             and listaId=None and listaNome=None and createdNow=0]
  show ?thesis
    unfolding r v by simp
qed

subsection \<open>Jitter and pause\<close>

lemma floor_scaled_pos:
  fixes u :: real and n :: int
  assumes "0 \<le> u" "u < 1" "1 \<le> n"
  shows "0 \<le> \<lfloor>u * of_int n\<rfloor> \<and> \<lfloor>u * of_int n\<rfloor> \<le> n - 1"
proof -
  have "0 \<le> u * of_int n" using assms by simp
  then have lo: "0 \<le> \<lfloor>u * of_int n\<rfloor>" by simp
  have "u * of_int n < 1 * of_int n" using assms by (intro mult_strict_right_mono) auto
  then have "\<lfloor>u * of_int n\<rfloor> < n" by (simp add: floor_less_iff)
  with lo show ?thesis by simp
qed

lemma floor_scaled_nonpos:
  fixes u :: real and n :: int
  assumes "0 \<le> u" "n \<le> 0"
  shows "\<lfloor>u * of_int n\<rfloor> \<le> 0"
proof -
  have "u * of_int n \<le> 0" using assms by (simp add: mult_nonneg_nonpos)
  then show ?thesis by (simp add: floor_le_iff)
qed

lemma rand_fst:
  "a < b \<Longrightarrow> fst (rand e a b w) =
     (if a < 0 then 0 else a)
       + \<lfloor>random e (draws w) * of_int (b - (if a < 0 then 0 else a) + 1)\<rfloor>"
  unfolding rand_def Let_def fst_conv by (simp only: min_def max_def split: if_splits) simp

lemma rand_clamped:
  assumes "0 \<le> random e (draws w)" "random e (draws w) < 1" "a < b"
  shows "max 0 a \<le> max 0 (fst (rand e a b w)) \<and> max 0 (fst (rand e a b w)) \<le> max 0 b"
proof -
  define mn where "mn = (if a < 0 then 0 else a)"
  define k where "k = \<lfloor>random e (draws w) * of_int (b - mn + 1)\<rfloor>"
  have r: "fst (rand e a b w) = mn + k"
    unfolding mn_def k_def using rand_fst[OF assms(3)] .
  show ?thesis
  proof (cases "0 \<le> b")
    case True
    then have n: "1 \<le> b - mn + 1" using assms(3) by (simp add: mn_def)
    from floor_scaled_pos[OF assms(1,2) n] have "0 \<le> k \<and> k \<le> b - mn"
      unfolding k_def by linarith
    with r True show ?thesis by (auto simp: mn_def split: if_splits)
  next
    case False
    then have mn0: "mn = 0" using assms(3) by (simp add: mn_def)
    with False have n: "b - mn + 1 \<le> 0" by simp
    from floor_scaled_nonpos[OF assms(1) n] have "k \<le> 0"
      unfolding k_def .
    with r mn0 False assms(3) show ?thesis by simp
  qed
qed

lemma rand_frame:
  "messages (snd (rand e a b w)) = messages w \<and> db_ops (snd (rand e a b w)) = db_ops w
   \<and> ticks (snd (rand e a b w)) = ticks w \<and> next_id (snd (rand e a b w)) = next_id w"
  by (simp add: rand_def Let_def)

lemma nextCursor_frame:
  "nextCursor e a b p d cursor count w = (c, w1) \<Longrightarrow>
     messages w1 = messages w \<and> db_ops w1 = db_ops w \<and> ticks w1 = ticks w"
  using rand_frame[of e a b w]
  by (auto simp: nextCursor_def Let_def split: if_splits prod.splits)

lemma nextCursor_ge:
  "nextCursor e a b p d cursor count w = (c, w1) \<Longrightarrow> cursor \<le> c"
  by (auto simp: nextCursor_def Let_def split: if_splits prod.splits)

lemma nextCursor_first:
  "nextCursor e a b p d cursor 0 w = (cursor, w)"
  by (simp add: nextCursor_def)

lemma nextCursor_step:
  assumes "unitInterval e" "nextCursor e a b p d cursor count w = (c, w1)" "0 < count"
  shows "gapOK a b (c - cursor - pauseAt p d count)"
proof (cases "a \<ge> b")
  case True
  with assms(2,3) show ?thesis
    by (auto simp: nextCursor_def gapOK_def pauseAt_def Let_def split: if_splits)
next
  case False
  then have ab: "a < b" by simp
  from assms(1) have u: "0 \<le> random e (draws w)" "random e (draws w) < 1"
    by (auto simp: unitInterval_def)
  from assms(2,3) False have "c - cursor - pauseAt p d count = max 0 (fst (rand e a b w))"
    by (auto simp: nextCursor_def pauseAt_def Let_def split: if_splits prod.splits)
  with rand_clamped[OF u ab] False show ?thesis by (simp add: gapOK_def)
qed


lemma updateScheduledAt_ok:
  "updateScheduledAt e i t w = (None, w2) \<Longrightarrow>
     messages w2 = setTime i t (messages w) \<and> ticks w2 = ticks w \<and> draws w2 = draws w"
  by (auto simp: updateScheduledAt_def store_op_def split: option.splits)

lemma updateScheduledAt_messages:
  "updateScheduledAt e i t w = (r, w2) \<Longrightarrow>
     messages w2 = (if r = None then setTime i t (messages w) else messages w)"
  by (auto simp: updateScheduledAt_def store_op_def split: option.splits)

lemma map_msg_id_setTime: "map msg_id (setTime i t ms) = map msg_id ms"
  by (induction ms) (auto simp: setTime_def)

lemma timesOf_Cons:
  "timesOf w (k # ks) = map scheduled_at (filter (\<lambda>m. msg_id m = k) (messages w)) @ timesOf w ks"
  by (simp add: timesOf_def)

lemma timesOf_cong: "messages w = messages v \<Longrightarrow> timesOf w ks = timesOf v ks"
  by (simp add: timesOf_def)

lemma jitterLoop_messages_ids:
  "jitterLoop e a b p d cursor count rows w = (res, w') \<Longrightarrow>
     map msg_id (messages w') = map msg_id (messages w)"
proof (induction rows arbitrary: cursor count w)
  case Nil
  then show ?case by simp
next
  case (Cons r rs)
  obtain c w1 where nc: "nextCursor e a b p d cursor count w = (c, w1)"
    by (cases "nextCursor e a b p d cursor count w")
  note fr = nextCursor_frame[OF nc]
  show ?case
  proof (cases "toISOString c")
    case (Inl err)
    with Cons.prems nc fr show ?thesis by simp
  next
    case (Inr stamp)
    obtain r2 w2 where up: "updateScheduledAt e (msg_id r) stamp w1 = (r2, w2)"
      by (cases "updateScheduledAt e (msg_id r) stamp w1")
    have ids2: "map msg_id (messages w2) = map msg_id (messages w)"
      using updateScheduledAt_messages[OF up] fr by (auto simp: map_msg_id_setTime)
    show ?thesis
    proof (cases r2)
      case None
      with Cons.prems nc Inr up have "jitterLoop e a b p d c (Suc count) rs w2 = (res, w')"
        by simp
      from Cons.IH[OF this] ids2 show ?thesis by simp
    next
      case (Some err)
      with Cons.prems nc Inr up ids2 show ?thesis by simp
    qed
  qed
qed


lemma filter_setTime_other:
  "i \<noteq> k \<Longrightarrow> filter (\<lambda>m. msg_id m = k) (setTime i t ms) = filter (\<lambda>m. msg_id m = k) ms"
  by (induction ms) (auto simp: setTime_def)

lemma jitterLoop_untouched:
  "jitterLoop e a b p d cursor count rows w = (res, w') \<Longrightarrow> k \<notin> msg_id ` set rows \<Longrightarrow>
     filter (\<lambda>m. msg_id m = k) (messages w') = filter (\<lambda>m. msg_id m = k) (messages w)"
proof (induction rows arbitrary: cursor count w)
  case Nil
  then show ?case by simp
next
  case (Cons r rs)
  obtain c w1 where nc: "nextCursor e a b p d cursor count w = (c, w1)"
    by (cases "nextCursor e a b p d cursor count w")
  note fr = nextCursor_frame[OF nc]
  from Cons.prems(2) have kr: "msg_id r \<noteq> k" and krs: "k \<notin> msg_id ` set rs" by auto
  show ?case
  proof (cases "toISOString c")
    case (Inl err)
    with Cons.prems nc fr show ?thesis by simp
  next
    case (Inr stamp)
    obtain r2 w2 where up: "updateScheduledAt e (msg_id r) stamp w1 = (r2, w2)"
      by (cases "updateScheduledAt e (msg_id r) stamp w1")
    have f2: "filter (\<lambda>m. msg_id m = k) (messages w2) = filter (\<lambda>m. msg_id m = k) (messages w)"
      using updateScheduledAt_messages[OF up] fr kr
      by (auto simp: filter_setTime_other)
    show ?thesis
    proof (cases r2)
      case None
      with Cons.prems nc Inr up have "jitterLoop e a b p d c (Suc count) rs w2 = (res, w')"
        by simp
      from Cons.IH[OF this krs] f2 show ?thesis by simp
    next
      case (Some err)
      with Cons.prems nc Inr up f2 show ?thesis by simp
    qed
  qed
qed

lemma filter_id_unique:
  "distinct (map msg_id ms) \<Longrightarrow> k \<in> msg_id ` set ms \<Longrightarrow>
     length (filter (\<lambda>m. msg_id m = k) ms) = 1"
proof (induction ms)
  case Nil
  then show ?case by simp
next
  case (Cons m ms)
  show ?case
  proof (cases "msg_id m = k")
    case True
    have "\<forall>x \<in> set ms. msg_id x \<noteq> k"
      using Cons.prems(1) True by (auto simp: image_iff)
    then have "filter (\<lambda>m. msg_id m = k) ms = []"
      by (simp add: filter_empty_conv)
    with True show ?thesis by simp
  next
    case False
    with Cons show ?thesis by auto
  qed
qed

lemma times_after_setTime:
  "map scheduled_at (filter (\<lambda>m. msg_id m = k) (setTime k t ms))
     = replicate (length (filter (\<lambda>m. msg_id m = k) ms)) t"
  by (induction ms) (auto simp: setTime_def)

lemma jitterLoop_schedule:
  assumes "jitterLoop e a b p d cursor count rows w = (Inr (), w')"
    and "distinct (map msg_id rows)"
    and "distinct (map msg_id (messages w))"
    and "msg_id ` set rows \<subseteq> msg_id ` set (messages w)"
  shows "length (timesOf w' (map msg_id rows)) = length rows
     \<and> sorted (timesOf w' (map msg_id rows))
     \<and> (\<forall>t \<in> set (timesOf w' (map msg_id rows)). cursor \<le> t)
     \<and> (count = 0 \<longrightarrow> rows \<noteq> [] \<longrightarrow> hd (timesOf w' (map msg_id rows)) = cursor)
     \<and> (unitInterval e \<longrightarrow> stepsOK a b p d cursor count (timesOf w' (map msg_id rows)))"
  using assms
proof (induction rows arbitrary: cursor count w)
  case Nil
  then show ?case by (simp add: timesOf_def)
next
  case (Cons r rs)
  obtain c w1 where nc: "nextCursor e a b p d cursor count w = (c, w1)"
    by (cases "nextCursor e a b p d cursor count w")
  note fr = nextCursor_frame[OF nc]
  from Cons.prems(1) nc obtain w2 where
    iso: "toISOString c = Inr c"
    and up: "updateScheduledAt e (msg_id r) c w1 = (None, w2)"
    and rec: "jitterLoop e a b p d c (Suc count) rs w2 = (Inr (), w')"
    by (auto simp: toISOString_def split: sum.splits option.splits prod.splits if_splits)
  note u2 = updateScheduledAt_ok[OF up]
  have m2: "messages w2 = setTime (msg_id r) c (messages w)" using u2 fr by simp
  have ids2: "map msg_id (messages w2) = map msg_id (messages w)"
    by (simp add: m2 map_msg_id_setTime)
  have d2: "distinct (map msg_id (messages w2))" using Cons.prems(3) ids2 by simp
  have s2: "msg_id ` set rs \<subseteq> msg_id ` set (messages w2)"
  proof -
    have "msg_id ` set (messages w2) = set (map msg_id (messages w2))" by simp
    also have "\<dots> = msg_id ` set (messages w)" unfolding ids2 by simp
    finally show ?thesis using Cons.prems(4) by auto
  qed
  from Cons.prems(2) have drs: "distinct (map msg_id rs)" and nin: "msg_id r \<notin> msg_id ` set rs"
    by auto
  note IH = Cons.IH[OF rec drs d2 s2]
  have one: "length (filter (\<lambda>m. msg_id m = msg_id r) (messages w)) = 1"
    using filter_id_unique[OF Cons.prems(3)] Cons.prems(4) by auto
  have "map scheduled_at (filter (\<lambda>m. msg_id m = msg_id r) (messages w'))
          = map scheduled_at (filter (\<lambda>m. msg_id m = msg_id r) (messages w2))"
    using jitterLoop_untouched[OF rec nin] by simp
  also have "\<dots> = [c]"
    unfolding m2 times_after_setTime one by simp
  finally have hd: "timesOf w' (map msg_id (r # rs)) = c # timesOf w' (map msg_id rs)"
    by (simp add: timesOf_Cons)
  have le: "cursor \<le> c" using nextCursor_ge[OF nc] .
  have first: "count = 0 \<Longrightarrow> c = cursor"
    using nc by (simp add: nextCursor_first)
  have step: "unitInterval e \<Longrightarrow>
      (if count = 0 then c = cursor else gapOK a b (c - cursor - pauseAt p d count))"
    using nc nextCursor_step[of e a b p d cursor count w c w1] first by auto
  from IH have "\<forall>t \<in> set (timesOf w' (map msg_id rs)). cursor \<le> t"
    using le by force
  with IH le first step show ?case
    unfolding hd by simp
qed


lemma distinct_map_insort_key:
  "distinct (map f (insort_key k x xs)) \<longleftrightarrow> f x \<notin> f ` set xs \<and> distinct (map f xs)"
  by (induction xs) (auto simp: set_insort_key)

lemma distinct_map_sort_key: "distinct (map f (sort_key k xs)) = distinct (map f xs)"
  by (induction xs) (simp_all add: distinct_map_insort_key)

lemma jitterRows_distinct:
  "distinct (map msg_id (messages w)) \<Longrightarrow> distinct (map msg_id (jitterRows ids w))"
  unfolding jitterRows_def distinct_map_sort_key by (rule distinct_map_filter)

lemma jitterRows_subset: "msg_id ` set (jitterRows ids w) \<subseteq> msg_id ` set (messages w)"
  by (auto simp: jitterRows_def)

lemma applyJitterAndPause_cases:
  assumes "applyJitterAndPause e ids a b p d w = (Inr (), w')"
  shows "(jitterRows ids w = [] \<and> messages w' = messages w)
       \<or> (jitterRows ids w \<noteq> [] \<and> (\<exists>w2. messages w2 = messages w
            \<and> jitterLoop e a b p d (max (clock e (ticks w)) (scheduled_at (hd (jitterRows ids w))))
                 0 (jitterRows ids w) w2 = (Inr (), w')))"
proof (cases "ids = []")
  case True
  with assms show ?thesis by (simp add: applyJitterAndPause_def jitterRows_def)
next
  case False
  show ?thesis
  proof (cases "db_fault e (db_ops w)")
    case (Some err)
    with assms False show ?thesis
      by (simp add: applyJitterAndPause_def selectByIds_def)
  next
    case None
    show ?thesis
    proof (cases "jitterRows ids w = []")
      case True
      with assms False None show ?thesis
        by (auto simp: applyJitterAndPause_def selectByIds_def jitterRows_def store_op_def)
    next
      case nonempty: False
      with assms False None
      have "jitterLoop e a b p d (max (clock e (ticks w)) (scheduled_at (hd (jitterRows ids w))))
              0 (jitterRows ids w) ((store_op w)\<lparr>ticks := Suc (ticks w)\<rparr>) = (Inr (), w')"
        by (simp add: applyJitterAndPause_def selectByIds_def jitterRows_def store_op_def now_def)
      moreover have "messages ((store_op w)\<lparr>ticks := Suc (ticks w)\<rparr>) = messages w"
        by (simp add: store_op_def)
      ultimately show ?thesis using nonempty by blast
    qed
  qed
qed

lemma applyJitterAndPause_schedule:
  assumes "applyJitterAndPause e ids a b p d w = (Inr (), w')"
    and "distinct (map msg_id (messages w))"
  shows "length (resultingSchedule ids w w') = length (jitterRows ids w)
     \<and> sorted (resultingSchedule ids w w')
     \<and> (\<forall>t \<in> set (resultingSchedule ids w w').
           max (clock e (ticks w)) (scheduled_at (hd (jitterRows ids w))) \<le> t)
     \<and> (jitterRows ids w \<noteq> [] \<longrightarrow> hd (resultingSchedule ids w w')
           = max (clock e (ticks w)) (scheduled_at (hd (jitterRows ids w))))
     \<and> (unitInterval e \<longrightarrow>
          stepsOK a b p d (max (clock e (ticks w)) (scheduled_at (hd (jitterRows ids w)))) 0
            (resultingSchedule ids w w'))"
  using applyJitterAndPause_cases[OF assms(1)]
proof (elim disjE conjE exE)
  assume "jitterRows ids w = []"
  then show ?thesis by (simp add: resultingSchedule_def timesOf_def)
next
  fix w2
  assume ne: "jitterRows ids w \<noteq> []" and m2: "messages w2 = messages w"
    and loop: "jitterLoop e a b p d (max (clock e (ticks w)) (scheduled_at (hd (jitterRows ids w))))
                 0 (jitterRows ids w) w2 = (Inr (), w')"
  have d2: "distinct (map msg_id (messages w2))" using assms(2) m2 by simp
  have s2: "msg_id ` set (jitterRows ids w) \<subseteq> msg_id ` set (messages w2)"
    using jitterRows_subset[of ids w] m2 by simp
  from jitterLoop_schedule[OF loop jitterRows_distinct[OF assms(2)] d2 s2] ne
  show ?thesis by (simp add: resultingSchedule_def)
qed



lemma sample_run:
  "applyJitterAndPause sampleEnv [1, 2, 3] 1000 5000 2 700
     (sampleWorld [sampleRow 1 1500, sampleRow 2 1000, sampleRow 3 1000])
   = (Inr (), \<lparr> messages = [sampleRow 1 8700, sampleRow 2 2000, sampleRow 3 5000],
        next_id = 4, ticks = 1, draws = 2, db_ops = 4 \<rparr>)"
  by (simp add: applyJitterAndPause_def selectByIds_def now_def store_op_def nextCursor_def
      rand_def updateScheduledAt_def setTime_def toISOString_def sampleEnv_def sampleWorld_def
      sampleRow_def Let_def)

lemma sample_schedule:
  "resultingSchedule [1, 2, 3]
     (sampleWorld [sampleRow 1 1500, sampleRow 2 1000, sampleRow 3 1000])
     \<lparr> messages = [sampleRow 1 8700, sampleRow 2 2000, sampleRow 3 5000],
        next_id = 4, ticks = 1, draws = 2, db_ops = 4 \<rparr> = [2000, 5000, 8700]"
  by (simp add: resultingSchedule_def jitterRows_def timesOf_def sampleWorld_def sampleRow_def)

lemma sample_distinct:
  "distinct (map msg_id (messages (sampleWorld [sampleRow 1 1500, sampleRow 2 1000, sampleRow 3 1000])))"
  by (simp add: sampleWorld_def sampleRow_def)


text \<open>
  C2. After a jitter pass that completes, the rows it processed (ascending by their scheduled
  time before the pass) hold scheduled times that never decrease along that order; the first
  of them holds the maximum of the clock reading taken by the pass and its own earlier time,
  so it is not before that clock reading. Row ids are the primary key of the table.
\<close>

theorem applyJitterAndPause_nondecreasing:
  assumes "applyJitterAndPause e ids minGapMs maxGapMs pauseEvery pauseDurationMs w = (Inr (), w')"
    and "distinct (map msg_id (messages w))"
  shows "length (resultingSchedule ids w w') = length (jitterRows ids w)
     \<and> sorted (map scheduled_at (jitterRows ids w))
     \<and> (\<forall>i. 0 < i \<and> i < length (resultingSchedule ids w w') \<longrightarrow>
            resultingSchedule ids w w' ! (i - 1) \<le> resultingSchedule ids w w' ! i)
     \<and> (jitterRows ids w \<noteq> [] \<longrightarrow>
            resultingSchedule ids w w' ! 0
              = max (clock e (ticks w)) (scheduled_at (jitterRows ids w ! 0))
            \<and> clock e (ticks w) \<le> resultingSchedule ids w w' ! 0)"
proof -
  note S = applyJitterAndPause_schedule[OF assms]
  have "sorted (map scheduled_at (jitterRows ids w))"
    by (simp add: jitterRows_def)
  moreover have "\<forall>i. 0 < i \<and> i < length (resultingSchedule ids w w') \<longrightarrow>
            resultingSchedule ids w w' ! (i - 1) \<le> resultingSchedule ids w w' ! i"
    using S by (auto simp: sorted_iff_nth_mono)
  moreover have "jitterRows ids w \<noteq> [] \<longrightarrow>
            resultingSchedule ids w w' ! 0
              = max (clock e (ticks w)) (scheduled_at (jitterRows ids w ! 0))
            \<and> clock e (ticks w) \<le> resultingSchedule ids w w' ! 0"
  proof
    assume ne: "jitterRows ids w \<noteq> []"
    with S have "resultingSchedule ids w w' \<noteq> []" by auto
    with S ne show "resultingSchedule ids w w' ! 0
              = max (clock e (ticks w)) (scheduled_at (jitterRows ids w ! 0))
            \<and> clock e (ticks w) \<le> resultingSchedule ids w w' ! 0"
      by (simp add: hd_conv_nth)
  qed
  ultimately show ?thesis using S by blast
qed

theorem applyJitterAndPause_nondecreasing_witness:
  "applyJitterAndPause sampleEnv [1, 2, 3] 1000 5000 2 700
     (sampleWorld [sampleRow 1 1500, sampleRow 2 1000, sampleRow 3 1000])
   = (Inr (), \<lparr> messages = [sampleRow 1 8700, sampleRow 2 2000, sampleRow 3 5000],
        next_id = 4, ticks = 1, draws = 2, db_ops = 4 \<rparr>)
   \<and> distinct (map msg_id (messages
         (sampleWorld [sampleRow 1 1500, sampleRow 2 1000, sampleRow 3 1000])))
   \<and> resultingSchedule [1, 2, 3]
        (sampleWorld [sampleRow 1 1500, sampleRow 2 1000, sampleRow 3 1000])
        \<lparr> messages = [sampleRow 1 8700, sampleRow 2 2000, sampleRow 3 5000],
           next_id = 4, ticks = 1, draws = 2, db_ops = 4 \<rparr> = [2000, 5000, 8700]
   \<and> [2000, 5000, 8700 :: int] ! (2 - 1) \<le> [2000, 5000, 8700] ! 2
   \<and> clock sampleEnv (ticks (sampleWorld [sampleRow 1 1500, sampleRow 2 1000, sampleRow 3 1000]))
        \<le> [2000, 5000, 8700] ! 0"
proof -
  have ne: "jitterRows [1, 2, 3]
     (sampleWorld [sampleRow 1 1500, sampleRow 2 1000, sampleRow 3 1000]) \<noteq> []"
    by (simp add: jitterRows_def sampleWorld_def sampleRow_def)
  note T = applyJitterAndPause_nondecreasing[OF sample_run sample_distinct,
      unfolded sample_schedule]
  from T have "[2000, 5000, 8700 :: int] ! (2 - 1) \<le> [2000, 5000, 8700] ! 2"
    by (elim conjE) (drule spec[of _ 2], simp)
  moreover from T ne
  have "clock sampleEnv (ticks (sampleWorld [sampleRow 1 1500, sampleRow 2 1000, sampleRow 3 1000]))
        \<le> [2000, 5000, 8700] ! 0"
    by blast
  ultimately show ?thesis
    using sample_run sample_distinct sample_schedule by blast
qed




text \<open>
  For any delays and pause the caller supplies, the bounds \<^verbatim>\<open>POST\<close> passes on are not
  negative and ordered, and a jitter pass that completes never takes the cursor back: the
  new times do not decrease along the processing order, and none is before the clock
  reading or before the earliest time held before the pass.
\<close>

lemma POST_jitter_cursor_forward:
  assumes "POST_jitter e ids delayMsMin delayMsMax pauseEvery pauseDurationMs w = (Inr (), w')"
    and "distinct (map msg_id (messages w))"
  shows "0 \<le> minGap delayMsMin delayMsMax
     \<and> minGap delayMsMin delayMsMax \<le> max 0 (maxGap delayMsMin delayMsMax)
     \<and> sorted (resultingSchedule ids w w')
     \<and> (\<forall>t \<in> set (resultingSchedule ids w w').
           max (clock e (ticks w)) (scheduled_at (hd (jitterRows ids w))) \<le> t)"
  using applyJitterAndPause_schedule[OF assms(1)[unfolded POST_jitter_def] assms(2)]
  by (simp add: minGap_def maxGap_def)


subsection \<open>Status of a batch\<close>






subsection \<open>Rendering a template\<close>
















subsection \<open>Sending through the provider\<close>
















subsection \<open>Draining a batch and the sending window\<close>

lemma send_ok:
  "sendViaUazapi (stubNet 200) to body wr
     = (Inr (), wr @ [(\<lparr>req_url = ''http://api/send/text'', req_number = to, req_text = body\<rparr>,
                      Answer \<lparr>resp_status = 200, x_fallback_url = None, resp_data = DString ''no''\<rparr>)])"
  by (simp add: sendViaUazapi_def stubNet_def normalizeCandidates_def stripSlashes_def
      hasEndpoint_def lowerChar_def suffix_def Cons_eq_append_conv append_eq_Cons_conv
      tryPost_def res_ok_def Let_def)

text \<open>
  C4 at a batch of two due rows, a provider that accepts every send and a budget of 250 ms
  that runs out while the first row is being sent: \<^verbatim>\<open>processChunk\<close> returns
  \<^verbatim>\<open>time-budget\<close> with \<^verbatim>\<open>processed\<close> 2, the number of rows selected, while one row has
  been sent and the other is still queued.
\<close>

theorem processChunk_reports_selected_count:
  "processChunk sampleEnv (stubNet 200) 1 15 250
      (sampleWorld [sampleRow 1 1000, sampleRow 2 1000], [])
   = Some (Inr (2, time_budget),
       (\<lparr> messages = [(sampleRow 1 1000)\<lparr>status := sent, sent_at := Some 2300\<rparr>,
                      sampleRow 2 1000],
          next_id = 3, ticks = 5, draws = 0, db_ops = 3 \<rparr>,
        [(\<lparr>req_url = ''http://api/send/text'', req_number = ''5511999998888'', req_text = ''Oi''\<rparr>,
          Answer \<lparr>resp_status = 200, x_fallback_url = None, resp_data = DString ''no''\<rparr>)]))"
  unfolding processChunk_def
  apply (subst chunkLoop.simps)
  apply (simp add: now_def selectJobs_def store_op_def updateRow_def send_ok
      sampleEnv_def sampleWorld_def sampleRow_def Let_def numeral_3_eq_3)
  done

text \<open>
  With a budget of 0 and a clock that does not run backwards between its first two
  readings, \<^verbatim>\<open>processChunk\<close> returns \<^verbatim>\<open>time-budget\<close> with \<^verbatim>\<open>processed\<close> 0 at once:
  it selects nothing, sends nothing and throws nothing.
\<close>

lemma processChunk_zero_budget:
  assumes "clock e (ticks w) \<le> clock e (Suc (ticks w))"
  shows "processChunk e n batchId limit 0 (w, wr)
           = Some (Inr (0, time_budget), (w\<lparr>ticks := Suc (Suc (ticks w))\<rparr>, wr))"
  unfolding processChunk_def
  apply (subst chunkLoop.simps)
  using assms apply (simp add: now_def)
  done

text \<open>
  Where the host and the zone share one fixed offset, \<^verbatim>\<open>next0800\<close> does return an
  instant at 08:00 local time, inside the window and not before \<open>t\<close>.
\<close>

lemma hour_of_eight: "((d * 86400000 + 8 * 3600000) div 3600000) mod 24 = (8 :: int)"
proof -
  have "d * 86400000 + 8 * 3600000 = (d * 24 + 8) * (3600000 :: int)" by simp
  then have "(d * 86400000 + 8 * 3600000) div 3600000 = d * 24 + (8 :: int)" by simp
  then show ?thesis by simp
qed

lemma next0800_same_fixed_zone:
  "getLocalHour (next0800 \<lparr>sys_at_utc = (\<lambda>t. k), sys_at_local = (\<lambda>t. k)\<rparr> t (\<lambda>t. k)) (\<lambda>t. k) = 8
   \<and> inWindow (next0800 \<lparr>sys_at_utc = (\<lambda>t. k), sys_at_local = (\<lambda>t. k)\<rparr> t (\<lambda>t. k)) (\<lambda>t. k) 8 18
   \<and> t \<le> next0800 \<lparr>sys_at_utc = (\<lambda>t. k), sys_at_local = (\<lambda>t. k)\<rparr> t (\<lambda>t. k)"
proof -
  define d where "d = (t + k * 60000) div 86400000"
  have lo: "d * 86400000 \<le> t + k * 60000" and hi: "t + k * 60000 < d * 86400000 + 86400000"
    unfolding d_def by simp_all
  have n: "next0800 \<lparr>sys_at_utc = (\<lambda>t. k), sys_at_local = (\<lambda>t. k)\<rparr> t (\<lambda>t. k)
      = (if t \<le> d * 86400000 + 8 * 3600000 - k * 60000
         then d * 86400000 + 8 * 3600000 - k * 60000
         else (d + 1) * 86400000 + 8 * 3600000 - k * 60000)"
    by (simp add: next0800_def Let_def d_def algebra_simps)
  have h: "getLocalHour (next0800 \<lparr>sys_at_utc = (\<lambda>t. k), sys_at_local = (\<lambda>t. k)\<rparr> t (\<lambda>t. k)) (\<lambda>t. k) = 8"
    unfolding n getLocalHour_def using hour_of_eight[of d] hour_of_eight[of "d + 1"]
    by (simp split: if_splits)
  have "t \<le> next0800 \<lparr>sys_at_utc = (\<lambda>t. k), sys_at_local = (\<lambda>t. k)\<rparr> t (\<lambda>t. k)"
    unfolding n using hi by (simp split: if_splits)
  with h show ?thesis by (simp add: inWindow_def)
qed

text \<open>
  C5 on a host whose system zone is UTC, for a zone three hours behind UTC: from 19:00
  local time \<^verbatim>\<open>next0800\<close> returns 08:00 UTC of the next day, which is 05:00 local time and
  outside the window. And on a host in the zone itself, when the clocks go forward during
  the night (the zone moves from five to four hours behind UTC): from 20:00 local time of
  the evening before, it returns the instant 24 hours after that evening's day's 08:00,
  which is 09:00 local time.
\<close>

theorem next0800_utc_host:
  "next0800 \<lparr>sys_at_utc = (\<lambda>t. 0), sys_at_local = (\<lambda>t. 0)\<rparr> 1705356000000 (\<lambda>t. - 180)
     = 1705392000000
   \<and> getLocalHour 1705356000000 (\<lambda>t. - 180) = 19
   \<and> getLocalHour 1705392000000 (\<lambda>t. - 180) = 5
   \<and> \<not> inWindow 1705392000000 (\<lambda>t. - 180) 8 18
   \<and> next0800 \<lparr>sys_at_utc = (\<lambda>t. if t < 1710054000000 then - 300 else - 240),
                 sys_at_local = (\<lambda>t. if t < 1710036000000 then - 300 else - 240)\<rparr>
         1710032400000 (\<lambda>t. if t < 1710054000000 then - 300 else - 240)
       = 1710075600000
   \<and> getLocalHour 1710032400000 (\<lambda>t. if t < 1710054000000 then - 300 else - 240) = 20
   \<and> getLocalHour 1710075600000 (\<lambda>t. if t < 1710054000000 then - 300 else - 240) = 9"
  by (simp add: next0800_def getLocalHour_def inWindow_def Let_def)


end
